theory Spec2Isabelle
  imports Complex_Main
begin

section \<open>The crop editor of ImageCropper.tsx\<close>

text \<open>
  A shallow embedding of the component \<^verbatim>\<open>ImageCropper\<close>
  (src/components/ImageCropper.tsx). The component state (the \<^verbatim>\<open>useState\<close> cells)
  is a record, every handler is a function from the state to the next state, and the
  DOM objects the handlers read (\<^verbatim>\<open>imageRef.current\<close>, \<^verbatim>\<open>containerRef.current\<close>,
  the 2d context of a fresh canvas) are a record of their own, each of them optional
  because the handlers test them for null.

  JavaScript numbers are modelled as exact real numbers: no rounding error, no NaN and
  no infinities. Every division of the handlers is therefore guarded in the theorems by
  a hypothesis that the divisor is not zero. The preview, the hover captions and the
  markup are left out.
\<close>

subsection \<open>Data\<close>

record rect =
  box_x :: real
  box_y :: real
  box_width :: real
  box_height :: real

datatype custom_mode = RatioMode | PixelsMode

text \<open>The eight values of \<^verbatim>\<open>data-handle\<close>; \<open>handle_str\<close> is the attribute's text.\<close>

datatype handle = Hnw | Hne | Hsw | Hse | Hn | Hs | Hw | He

fun handle_str :: "handle \<Rightarrow> string" where
  "handle_str Hnw = ''nw''"
| "handle_str Hne = ''ne''"
| "handle_str Hsw = ''sw''"
| "handle_str Hse = ''se''"
| "handle_str Hn = ''n''"
| "handle_str Hs = ''s''"
| "handle_str Hw = ''w''"
| "handle_str He = ''e''"

definition handle_includes :: "handle \<Rightarrow> char \<Rightarrow> bool" where
  "handle_includes h c = (c \<in> set (handle_str h))"

record editor =
  cropBox :: rect
  isDragging :: bool
  dragStart :: "real \<times> real"
  currentRatioIndex :: nat
  imageLoaded :: bool
  lockAspectRatio :: bool
  resizeHandle :: "handle option"
  customWidth :: int
  customHeight :: int
  customMode :: custom_mode
  pixelWidth :: int
  pixelHeight :: int

text \<open>The initial values of the \<^verbatim>\<open>useState\<close> cells.\<close>

definition initial_editor :: editor where
  "initial_editor =
     \<lparr> cropBox = \<lparr> box_x = 0, box_y = 0, box_width = 0, box_height = 0 \<rparr>,
       isDragging = False,
       dragStart = (0, 0),
       currentRatioIndex = 0,
       imageLoaded = False,
       lockAspectRatio = True,
       resizeHandle = None,
       customWidth = 16,
       customHeight = 9,
       customMode = RatioMode,
       pixelWidth = 1920,
       pixelHeight = 1080 \<rparr>"

text \<open>
  The image element: the width and height of its bounding client rectangle and its
  natural size. The container: the left and top of its bounding client rectangle.
\<close>

record img_elem =
  rect_width :: real
  rect_height :: real
  naturalWidth :: nat
  naturalHeight :: nat

record container_rect =
  rect_left :: real
  rect_top :: real

record dom =
  imageRef :: "img_elem option"
  containerRef :: "container_rect option"
  has_ctx :: bool
  has_onImageUpdate :: bool

record mouse_event =
  clientX :: real
  clientY :: real
  target_handle :: "handle option"

record wheel_event =
  shiftKey :: bool
  deltaY :: real

subsection \<open>The ratio catalogue and the current ratio\<close>

definition ASPECT_RATIOS :: "(string \<times> real) list" where
  "ASPECT_RATIOS =
     [(''16:9'', 16 / 9), (''4:3'', 4 / 3), (''3:2'', 3 / 2), (''1:1'', 1),
      (''2:3'', 2 / 3), (''3:4'', 3 / 4), (''9:16'', 9 / 16), (''Custom'', 0)]"

definition isCustomRatio :: "editor \<Rightarrow> bool" where
  "isCustomRatio st = (currentRatioIndex st = length ASPECT_RATIOS - 1)"

definition customRatioValue :: "editor \<Rightarrow> real" where
  "customRatioValue st = real_of_int (customWidth st) / real_of_int (customHeight st)"

text \<open>
  \<^verbatim>\<open>currentRatio\<close> is a number or null. The catalogue is read at the current index,
  which every handler keeps below the catalogue's length (\<open>wf_settings_run\<close> below);
  the theorems that read the catalogue carry that bound as a hypothesis.
\<close>

definition currentRatio :: "editor \<Rightarrow> real option" where
  "currentRatio st =
     (if lockAspectRatio st
      then Some (if isCustomRatio st
                 then (if customMode st = RatioMode then customRatioValue st
                       else real_of_int (pixelWidth st) / real_of_int (pixelHeight st))
                 else snd (ASPECT_RATIOS ! currentRatioIndex st))
      else None)"

text \<open>
  \<^verbatim>\<open>currentRatio ? a : b\<close>: null and 0 are falsy, every other number takes the
  first branch, where the number is used.
\<close>

definition if_ratio :: "real option \<Rightarrow> (real \<Rightarrow> 'a) \<Rightarrow> 'a \<Rightarrow> 'a" where
  "if_ratio cr a b = (case cr of None \<Rightarrow> b | Some r \<Rightarrow> if r \<noteq> 0 then a r else b)"

definition pixel_mode :: "editor \<Rightarrow> bool" where
  "pixel_mode st = (isCustomRatio st \<and> customMode st = PixelsMode)"

definition swapRatioDimensions :: "editor \<Rightarrow> editor" where
  "swapRatioDimensions st =
     st\<lparr> customWidth := customHeight st, customHeight := customWidth st \<rparr>"

definition swapPixelDimensions :: "editor \<Rightarrow> editor" where
  "swapPixelDimensions st =
     st\<lparr> pixelWidth := pixelHeight st, pixelHeight := pixelWidth st \<rparr>"

subsection \<open>Initialisation of the crop box\<close>

definition initializeCropBox :: "dom \<Rightarrow> editor \<Rightarrow> editor" where
  "initializeCropBox d st =
     (case imageRef d of
        None \<Rightarrow> st
      | Some img \<Rightarrow>
          let imgWidth = rect_width img;
              imgHeight = rect_height img;
              (boxWidth, boxHeight) =
                (if pixel_mode st
                 then
                   let scaleX = real (naturalWidth img) / rect_width img;
                       scaleY = real (naturalHeight img) / rect_height img;
                       boxWidth = real_of_int (pixelWidth st) / scaleX;
                       boxHeight = real_of_int (pixelHeight st) / scaleY
                   in if boxWidth > imgWidth \<or> boxHeight > imgHeight
                      then
                        let scale = min (imgWidth / boxWidth) (imgHeight / boxHeight) * 0.8
                        in (boxWidth * scale, boxHeight * scale)
                      else (boxWidth, boxHeight)
                 else
                   let boxWidth = imgWidth * 0.8;
                       boxHeight = if_ratio (currentRatio st) (\<lambda>r. boxWidth / r) (imgHeight * 0.8)
                   in if boxHeight > imgHeight * 0.8
                      then
                        let boxHeight = imgHeight * 0.8;
                            boxWidth = if_ratio (currentRatio st) (\<lambda>r. boxHeight * r) (imgWidth * 0.8)
                        in (boxWidth, boxHeight)
                      else (boxWidth, boxHeight));
              x = (imgWidth - boxWidth) / 2;
              y = (imgHeight - boxHeight) / 2
          in st\<lparr> cropBox := \<lparr> box_x = x, box_y = y, box_width = boxWidth, box_height = boxHeight \<rparr> \<rparr>)"

subsection \<open>The wheel\<close>

definition handleWheel :: "dom \<Rightarrow> wheel_event \<Rightarrow> editor \<Rightarrow> editor" where
  "handleWheel d e st =
     (if shiftKey e
      then
        (case imageRef d of
           None \<Rightarrow> st
         | Some img \<Rightarrow>
             let cr = currentRatio st;
                 cb = cropBox st;
                 scaleFactor = (if deltaY e > 0 then 0.95 else 1.05);
                 newWidth = box_width cb * scaleFactor;
                 newHeight = if_ratio cr (\<lambda>r. newWidth / r) (box_height cb * scaleFactor);
                 (newWidth, newHeight) =
                   (if newWidth > rect_width img
                    then (rect_width img, if_ratio cr (\<lambda>r. rect_width img / r) newHeight)
                    else (newWidth, newHeight));
                 (newWidth, newHeight) =
                   (if newHeight > rect_height img
                    then (if_ratio cr (\<lambda>r. rect_height img * r) newWidth, rect_height img)
                    else (newWidth, newHeight));
                 x = box_x cb + (box_width cb - newWidth) / 2;
                 y = box_y cb + (box_height cb - newHeight) / 2;
                 finalX = max 0 (min x (rect_width img - newWidth));
                 finalY = max 0 (min y (rect_height img - newHeight))
             in st\<lparr> cropBox := \<lparr> box_x = finalX, box_y = finalY,
                                  box_width = newWidth, box_height = newHeight \<rparr> \<rparr>)
      else if lockAspectRatio st
      then st\<lparr> currentRatioIndex :=
                 (let prev = currentRatioIndex st
                  in if deltaY e > 0
                     then (if prev = length ASPECT_RATIOS - 1 then 0 else prev + 1)
                     else (if prev = 0 then length ASPECT_RATIOS - 1 else prev - 1)) \<rparr>
      else st)"

subsection \<open>The pointer\<close>

definition handleMouseDown :: "dom \<Rightarrow> mouse_event \<Rightarrow> editor \<Rightarrow> editor" where
  "handleMouseDown d e st =
     (case containerRef d of
        None \<Rightarrow> st
      | Some r \<Rightarrow>
          (case target_handle e of
             Some h \<Rightarrow> st\<lparr> resizeHandle := Some h \<rparr>
           | None \<Rightarrow>
               st\<lparr> isDragging := True,
                   dragStart := (clientX e - rect_left r - box_x (cropBox st),
                                 clientY e - rect_top r - box_y (cropBox st)) \<rparr>))"

text \<open>
  The resize branch of \<^verbatim>\<open>handleMouseMove\<close> updates four local variables in six
  steps: one per letter of the handle, in the order e, w, s, n, and the two steps of the
  boundary pass. Each step is a function on the four variables, held in a \<open>rect\<close>.
\<close>

definition resize_e :: "real option \<Rightarrow> rect \<Rightarrow> real \<Rightarrow> real \<Rightarrow> rect \<Rightarrow> rect" where
  "resize_e cr cb mouseX imgW t =
     (let newWidth = max 50 (min (mouseX - box_x cb) (imgW - box_x cb))
      in t\<lparr> box_width := newWidth,
            box_height := if_ratio cr (\<lambda>r. newWidth / r) (box_height t) \<rparr>)"

definition resize_w :: "real option \<Rightarrow> rect \<Rightarrow> real \<Rightarrow> rect \<Rightarrow> rect" where
  "resize_w cr cb mouseX t =
     (let maxX = box_x cb + box_width cb - 50;
          newX = max 0 (min mouseX maxX);
          newWidth = box_x cb + box_width cb - newX;
          t = t\<lparr> box_x := newX, box_width := newWidth \<rparr>
      in if_ratio cr
           (\<lambda>r. let newHeight = newWidth / r
                in t\<lparr> box_height := newHeight,
                      box_y := box_y cb + (box_height cb - newHeight) / 2 \<rparr>)
           t)"

definition resize_s :: "real option \<Rightarrow> rect \<Rightarrow> real \<Rightarrow> real \<Rightarrow> rect \<Rightarrow> rect" where
  "resize_s cr cb mouseY imgH t =
     (let newHeight = max 50 (min (mouseY - box_y cb) (imgH - box_y cb))
      in t\<lparr> box_height := newHeight,
            box_width := if_ratio cr (\<lambda>r. newHeight * r) (box_width t) \<rparr>)"

definition resize_n :: "real option \<Rightarrow> rect \<Rightarrow> real \<Rightarrow> rect \<Rightarrow> rect" where
  "resize_n cr cb mouseY t =
     (let maxY = box_y cb + box_height cb - 50;
          newY = max 0 (min mouseY maxY);
          newHeight = box_y cb + box_height cb - newY;
          t = t\<lparr> box_y := newY, box_height := newHeight \<rparr>
      in if_ratio cr
           (\<lambda>r. let newWidth = newHeight * r
                in t\<lparr> box_width := newWidth,
                      box_x := box_x cb + (box_width cb - newWidth) / 2 \<rparr>)
           t)"

definition bound_x :: "real option \<Rightarrow> real \<Rightarrow> rect \<Rightarrow> rect" where
  "bound_x cr imgW t =
     (if box_x t + box_width t > imgW
      then let newWidth = imgW - box_x t
           in t\<lparr> box_width := newWidth,
                 box_height := if_ratio cr (\<lambda>r. newWidth / r) (box_height t) \<rparr>
      else t)"

definition bound_y :: "real option \<Rightarrow> real \<Rightarrow> rect \<Rightarrow> rect" where
  "bound_y cr imgH t =
     (if box_y t + box_height t > imgH
      then let newHeight = imgH - box_y t
           in t\<lparr> box_height := newHeight,
                 box_width := if_ratio cr (\<lambda>r. newHeight * r) (box_width t) \<rparr>
      else t)"

definition resize_box :: "real option \<Rightarrow> handle \<Rightarrow> real \<Rightarrow> real \<Rightarrow> real \<Rightarrow> real \<Rightarrow> rect \<Rightarrow> rect" where
  "resize_box cr h mouseX mouseY imgW imgH cb =
     (let t = cb;
          t = (if handle_includes h CHR ''e'' then resize_e cr cb mouseX imgW t else t);
          t = (if handle_includes h CHR ''w'' then resize_w cr cb mouseX t else t);
          t = (if handle_includes h CHR ''s'' then resize_s cr cb mouseY imgH t else t);
          t = (if handle_includes h CHR ''n'' then resize_n cr cb mouseY t else t);
          t = bound_x cr imgW t;
          t = bound_y cr imgH t
      in t)"

definition handleMouseMove :: "dom \<Rightarrow> mouse_event \<Rightarrow> editor \<Rightarrow> editor" where
  "handleMouseMove d e st =
     (case (containerRef d, imageRef d) of
        (Some containerRect, Some img) \<Rightarrow>
          if isDragging st
          then
            let newX = clientX e - rect_left containerRect - fst (dragStart st);
                newY = clientY e - rect_top containerRect - snd (dragStart st);
                x = max 0 (min newX (rect_width img - box_width (cropBox st)));
                y = max 0 (min newY (rect_height img - box_height (cropBox st)))
            in st\<lparr> cropBox := (cropBox st)\<lparr> box_x := x, box_y := y \<rparr> \<rparr>
          else
            (case resizeHandle st of
               Some h \<Rightarrow>
                 st\<lparr> cropBox :=
                       resize_box (currentRatio st) h
                         (clientX e - rect_left containerRect)
                         (clientY e - rect_top containerRect)
                         (rect_width img) (rect_height img) (cropBox st) \<rparr>
             | None \<Rightarrow> st)
      | _ \<Rightarrow> st)"

definition handleMouseUp :: "editor \<Rightarrow> editor" where
  "handleMouseUp st = st\<lparr> isDragging := False, resizeHandle := None \<rparr>"

subsection \<open>Rendering the crop\<close>

text \<open>\<^verbatim>\<open>Math.round\<close> rounds to the nearest integer, a half towards plus infinity.\<close>

definition Math_round :: "real \<Rightarrow> int" where
  "Math_round v = \<lfloor>v + 1 / 2\<rfloor>"

text \<open>
  The canvas that \<^verbatim>\<open>getCroppedImage\<close> returns: its size and the source rectangle
  of the one \<^verbatim>\<open>drawImage\<close> call (the destination is the whole canvas).
\<close>

record canvas =
  canvas_width :: int
  canvas_height :: int
  sourceX :: int
  sourceY :: int
  sourceWidth :: int
  sourceHeight :: int

definition getCroppedImage :: "dom \<Rightarrow> editor \<Rightarrow> canvas option" where
  "getCroppedImage d st =
     (if \<not> has_ctx d then None
      else case imageRef d of
        None \<Rightarrow> None
      | Some img \<Rightarrow>
          let scaleX = real (naturalWidth img) / rect_width img;
              scaleY = real (naturalHeight img) / rect_height img;
              cb = cropBox st;
              (canvasWidth, canvasHeight) =
                (if pixel_mode st
                 then (pixelWidth st, pixelHeight st)
                 else (Math_round (box_width cb * scaleX), Math_round (box_height cb * scaleY)))
          in Some \<lparr> canvas_width = canvasWidth, canvas_height = canvasHeight,
                    sourceX = Math_round (box_x cb * scaleX),
                    sourceY = Math_round (box_y cb * scaleY),
                    sourceWidth = Math_round (box_width cb * scaleX),
                    sourceHeight = Math_round (box_height cb * scaleY) \<rparr>)"

text \<open>
  \<^verbatim>\<open>handleCrop\<close> calls the two callbacks of the component's properties; the model
  returns the calls it makes, in order, beside the state (which it never changes).
\<close>

datatype callback = OnImageUpdate canvas | OnClose

definition handleCrop :: "dom \<Rightarrow> editor \<Rightarrow> editor \<times> callback list" where
  "handleCrop d st =
     (case getCroppedImage d st of
        None \<Rightarrow> (st, [])
      | Some c \<Rightarrow> (st, (if has_onImageUpdate d then [OnImageUpdate c] else []) @ [OnClose]))"

subsection \<open>Wheel stepping\<close>

fun wheel_times :: "nat \<Rightarrow> dom \<Rightarrow> wheel_event \<Rightarrow> editor \<Rightarrow> editor" where
  "wheel_times 0 d e st = st"
| "wheel_times (Suc n) d e st = wheel_times n d e (handleWheel d e st)"

subsection \<open>Events and the re-initialisation effect\<close>

text \<open>
  The value an input field stores: \<^verbatim>\<open>Math.max(1, parseInt(e.target.value) || 1)\<close>.
  The result of \<^verbatim>\<open>parseInt\<close> is the parameter: an integer, or \<open>None\<close> for NaN.
\<close>

definition input_value :: "int option \<Rightarrow> int" where
  "input_value p = max 1 (case p of None \<Rightarrow> 1 | Some n \<Rightarrow> if n \<noteq> 0 then n else 1)"

datatype event =
    ImageLoad
  | MouseDown mouse_event
  | MouseMove mouse_event
  | MouseUp
  | Wheel wheel_event
  | ClickLock
  | ClickRatio nat
  | ClickCustomMode custom_mode
  | InputCustomWidth "int option"
  | InputCustomHeight "int option"
  | InputPixelWidth "int option"
  | InputPixelHeight "int option"
  | ClickSwapRatio
  | ClickSwapPixel

text \<open>
  The handler of each event. An element that is rendered under a condition (the crop box
  once the image is loaded, the ratio buttons under the lock, the custom inputs under the
  lock with the Custom entry selected, in the mode they belong to) receives its event only
  when the condition holds; the ratio buttons carry the indices of the catalogue.
\<close>

definition handler :: "dom \<Rightarrow> event \<Rightarrow> editor \<Rightarrow> editor" where
  "handler d ev st =
     (case ev of
        ImageLoad \<Rightarrow> st\<lparr> imageLoaded := True \<rparr>
      | MouseDown e \<Rightarrow> if imageLoaded st then handleMouseDown d e st else st
      | MouseMove e \<Rightarrow> handleMouseMove d e st
      | MouseUp \<Rightarrow> handleMouseUp st
      | Wheel e \<Rightarrow> handleWheel d e st
      | ClickLock \<Rightarrow> st\<lparr> lockAspectRatio := \<not> lockAspectRatio st \<rparr>
      | ClickRatio i \<Rightarrow>
          if lockAspectRatio st \<and> i < length ASPECT_RATIOS
          then st\<lparr> currentRatioIndex := i \<rparr> else st
      | ClickCustomMode m \<Rightarrow>
          if lockAspectRatio st \<and> isCustomRatio st then st\<lparr> customMode := m \<rparr> else st
      | InputCustomWidth p \<Rightarrow>
          if lockAspectRatio st \<and> isCustomRatio st \<and> customMode st = RatioMode
          then st\<lparr> customWidth := input_value p \<rparr> else st
      | InputCustomHeight p \<Rightarrow>
          if lockAspectRatio st \<and> isCustomRatio st \<and> customMode st = RatioMode
          then st\<lparr> customHeight := input_value p \<rparr> else st
      | InputPixelWidth p \<Rightarrow>
          if lockAspectRatio st \<and> isCustomRatio st \<and> customMode st = PixelsMode
          then st\<lparr> pixelWidth := input_value p \<rparr> else st
      | InputPixelHeight p \<Rightarrow>
          if lockAspectRatio st \<and> isCustomRatio st \<and> customMode st = PixelsMode
          then st\<lparr> pixelHeight := input_value p \<rparr> else st
      | ClickSwapRatio \<Rightarrow>
          if lockAspectRatio st \<and> isCustomRatio st \<and> customMode st = RatioMode
          then swapRatioDimensions st else st
      | ClickSwapPixel \<Rightarrow>
          if lockAspectRatio st \<and> isCustomRatio st \<and> customMode st = PixelsMode
          then swapPixelDimensions st else st)"

text \<open>
  The effect that re-initialises the crop box runs after a render in which one of its
  dependencies has changed, when the image is loaded.
\<close>

definition deps ::
  "editor \<Rightarrow> bool \<times> real option \<times> bool \<times> int \<times> int \<times> custom_mode \<times> int \<times> int" where
  "deps st = (imageLoaded st, currentRatio st, lockAspectRatio st, customWidth st,
              customHeight st, customMode st, pixelWidth st, pixelHeight st)"

definition dispatch :: "dom \<Rightarrow> event \<Rightarrow> editor \<Rightarrow> editor" where
  "dispatch d ev st =
     (let st' = handler d ev st
      in if deps st' \<noteq> deps st \<and> imageLoaded st' then initializeCropBox d st' else st')"

fun run :: "dom \<Rightarrow> event list \<Rightarrow> editor \<Rightarrow> editor" where
  "run d [] st = st"
| "run d (ev # evs) st = run d evs (dispatch d ev st)"

subsection \<open>The specification's formulas\<close>


text \<open>
  The initialisation outside pixel mode as the specification words it: the width first,
  the height from the ratio, the height first when that height is above 80% of the
  display height, then the centring.
\<close>

definition init_spec :: "real \<Rightarrow> real \<Rightarrow> real option \<Rightarrow> rect" where
  "init_spec displayWidth displayHeight c =
     (let width = displayWidth * 0.8;
          height = (case c of Some r \<Rightarrow> width / r | None \<Rightarrow> displayHeight * 0.8);
          (width, height) =
            (if height > displayHeight * 0.8
             then ((case c of Some r \<Rightarrow> displayHeight * 0.8 * r | None \<Rightarrow> displayWidth * 0.8),
                   displayHeight * 0.8)
             else (width, height))
      in \<lparr> box_x = (displayWidth - width) / 2, box_y = (displayHeight - height) / 2,
           box_width = width, box_height = height \<rparr>)"

text \<open>
  The candidate box of pixel mode as the specification words it: the pixel target
  divided by the scale of each axis.
\<close>

definition pixel_candidate :: "img_elem \<Rightarrow> editor \<Rightarrow> real \<times> real" where
  "pixel_candidate img st =
     (real_of_int (pixelWidth st) / (real (naturalWidth img) / rect_width img),
      real_of_int (pixelHeight st) / (real (naturalHeight img) / rect_height img))"

subsection \<open>Invariants and kinds of events\<close>

text \<open>
  The settings that the handlers keep: the four custom numbers are at least 1 and the
  index is inside the catalogue.
\<close>

definition wf_settings :: "editor \<Rightarrow> bool" where
  "wf_settings st =
     (1 \<le> customWidth st \<and> 1 \<le> customHeight st \<and> 1 \<le> pixelWidth st \<and> 1 \<le> pixelHeight st
      \<and> currentRatioIndex st < length ASPECT_RATIOS)"

text \<open>
  The bounds of the crop rectangle inside the displayed image, and the sizes the
  theorems speak of: positive, and at least the 50 of the resize handles.
\<close>

definition inside :: "img_elem \<Rightarrow> rect \<Rightarrow> bool" where
  "inside img b =
     (0 \<le> box_x b \<and> 0 \<le> box_y b
      \<and> box_x b + box_width b \<le> rect_width img \<and> box_y b + box_height b \<le> rect_height img)"

definition positive_size :: "rect \<Rightarrow> bool" where
  "positive_size b = (0 < box_width b \<and> 0 < box_height b)"

definition min_size :: "rect \<Rightarrow> bool" where
  "min_size b = (50 \<le> box_width b \<and> 50 \<le> box_height b)"

text \<open>
  What every step of a ratio-locked resize establishes of the four local variables: the
  width is the height times the ratio, the height is positive, and the origin is left of
  and above the far edges of the image.
\<close>

definition locked_to :: "real \<Rightarrow> real \<Rightarrow> real \<Rightarrow> rect \<Rightarrow> bool" where
  "locked_to r imgW imgH t =
     (box_width t = box_height t * r \<and> 0 < box_height t \<and> box_x t < imgW \<and> box_y t < imgH)"

text \<open>
  The events of the pointer and the wheel; those that grab a resize handle; those that
  resize by the wheel (the shift key held).
\<close>

fun pointer_or_wheel :: "event \<Rightarrow> bool" where
  "pointer_or_wheel (MouseDown e) = True"
| "pointer_or_wheel (MouseMove e) = True"
| "pointer_or_wheel MouseUp = True"
| "pointer_or_wheel (Wheel e) = True"
| "pointer_or_wheel _ = False"

fun grabs_handle :: "event \<Rightarrow> bool" where
  "grabs_handle (MouseDown e) = (target_handle e \<noteq> None)"
| "grabs_handle _ = False"

fun precise_wheel :: "event \<Rightarrow> bool" where
  "precise_wheel (Wheel e) = shiftKey e"
| "precise_wheel _ = False"

subsection \<open>Example inputs\<close>

text \<open>An image shown at 1000 by 1000 with natural size \<open>n\<close> by \<open>n\<close>, at the container's origin.\<close>

definition square_dom :: "nat \<Rightarrow> dom" where
  "square_dom n =
     \<lparr> imageRef = Some \<lparr> rect_width = 1000, rect_height = 1000,
                          naturalWidth = n, naturalHeight = n \<rparr>,
       containerRef = Some \<lparr> rect_left = 0, rect_top = 0 \<rparr>,
       has_ctx = True, has_onImageUpdate = True \<rparr>"

definition no_dom :: dom where
  "no_dom = \<lparr> imageRef = None, containerRef = None, has_ctx = False, has_onImageUpdate = False \<rparr>"

text \<open>An image shown at 1000 by 300.\<close>

definition wide_dom :: dom where
  "wide_dom =
     \<lparr> imageRef = Some \<lparr> rect_width = 1000, rect_height = 300,
                          naturalWidth = 2000, naturalHeight = 600 \<rparr>,
       containerRef = Some \<lparr> rect_left = 0, rect_top = 0 \<rparr>,
       has_ctx = True, has_onImageUpdate = True \<rparr>"

text \<open>
  An image shown at 64 by 64, and a session on it that selects the ratio 1:1: the
  initialised box is 51.2 by 51.2.
\<close>

definition small_dom :: dom where
  "small_dom =
     \<lparr> imageRef = Some \<lparr> rect_width = 64, rect_height = 64,
                          naturalWidth = 64, naturalHeight = 64 \<rparr>,
       containerRef = Some \<lparr> rect_left = 0, rect_top = 0 \<rparr>,
       has_ctx = True, has_onImageUpdate = True \<rparr>"

definition square_events :: "event list" where
  "square_events = [ImageLoad, ClickRatio 3]"




text \<open>
  A session that selects the Custom entry, switches it to pixel mode and then releases
  the lock.
\<close>

definition unlock_events :: "event list" where
  "unlock_events = [ImageLoad, ClickRatio 7, ClickCustomMode PixelsMode, ClickLock]"


text \<open>
  A session that types into the four custom inputs: text that is no number, a zero, a
  negative number and 300.
\<close>

definition typing_events :: "event list" where
  "typing_events =
     [ImageLoad, ClickRatio 7, InputCustomWidth None, InputCustomHeight (Some 0), ClickSwapRatio,
      ClickCustomMode PixelsMode, InputPixelWidth (Some (- 5)), InputPixelHeight (Some 300)]"

text \<open>A session that grabs the east handle of the initialised box.\<close>

definition east_grab_events :: "event list" where
  "east_grab_events =
     [ImageLoad, MouseDown \<lparr> clientX = 900, clientY = 500, target_handle = Some He \<rparr>]"

text \<open>A drag of the east handle to the left edge of the image.\<close>

definition shrink_events :: "event list" where
  "shrink_events =
     [MouseDown \<lparr> clientX = 900, clientY = 500, target_handle = Some He \<rparr>,
      MouseMove \<lparr> clientX = 0, clientY = 500, target_handle = None \<rparr>,
      MouseUp]"

section \<open>Theorems\<close>

lemma length_ASPECT_RATIOS: "length ASPECT_RATIOS = 8"
  by (simp add: ASPECT_RATIOS_def)

lemma handleWheel_index_unshifted:
  "\<not> shiftKey e \<Longrightarrow> lockAspectRatio st \<Longrightarrow>
   currentRatioIndex (handleWheel d e st) =
     (if deltaY e > 0
      then (if currentRatioIndex st = 7 then 0 else currentRatioIndex st + 1)
      else (if currentRatioIndex st = 0 then 7 else currentRatioIndex st - 1))"
  by (simp add: handleWheel_def length_ASPECT_RATIOS Let_def)

subsection \<open>Wheel cycling\<close>

lemma handleWheel_index_lt:
  "currentRatioIndex st < length ASPECT_RATIOS \<Longrightarrow>
   currentRatioIndex (handleWheel d e st) < length ASPECT_RATIOS"
  by (auto simp: handleWheel_def length_ASPECT_RATIOS Let_def split: option.splits prod.splits)

lemma handleWheel_lock: "lockAspectRatio (handleWheel d e st) = lockAspectRatio st"
  by (auto simp: handleWheel_def Let_def split: option.splits prod.splits)

lemma wheel_forward_mod:
  "\<not> shiftKey e \<Longrightarrow> lockAspectRatio st \<Longrightarrow> deltaY e > 0 \<Longrightarrow> currentRatioIndex st < 8 \<Longrightarrow>
   currentRatioIndex (handleWheel d e st) = (currentRatioIndex st + 1) mod 8"
  by (simp add: handleWheel_index_unshifted)

lemma wheel_backward_mod:
  "\<not> shiftKey e \<Longrightarrow> lockAspectRatio st \<Longrightarrow> \<not> deltaY e > 0 \<Longrightarrow> currentRatioIndex st < 8 \<Longrightarrow>
   currentRatioIndex (handleWheel d e st) = (currentRatioIndex st + 7) mod 8"
  by (simp add: handleWheel_index_unshifted) presburger

lemma wheel_times_lock: "lockAspectRatio (wheel_times n d e st) = lockAspectRatio st"
  by (induction n arbitrary: st) (simp_all add: handleWheel_lock)

lemma wheel_times_forward:
  "\<not> shiftKey e \<Longrightarrow> lockAspectRatio st \<Longrightarrow> deltaY e > 0 \<Longrightarrow> currentRatioIndex st < 8 \<Longrightarrow>
   currentRatioIndex (wheel_times n d e st) = (currentRatioIndex st + n) mod 8"
proof (induction n arbitrary: st)
  case 0
  then show ?case by simp
next
  case (Suc n)
  let ?st = "handleWheel d e st"
  have i: "currentRatioIndex ?st = (currentRatioIndex st + 1) mod 8"
    using Suc.prems by (simp add: wheel_forward_mod)
  have "currentRatioIndex (wheel_times n d e ?st) = (currentRatioIndex ?st + n) mod 8"
    using Suc.prems i by (intro Suc.IH) (simp_all add: handleWheel_lock)
  then show ?case
    by (simp add: i mod_simps)
qed

lemma wheel_times_backward:
  "\<not> shiftKey e \<Longrightarrow> lockAspectRatio st \<Longrightarrow> \<not> deltaY e > 0 \<Longrightarrow> currentRatioIndex st < 8 \<Longrightarrow>
   currentRatioIndex (wheel_times n d e st) = (currentRatioIndex st + 7 * n) mod 8"
proof (induction n arbitrary: st)
  case 0
  then show ?case by simp
next
  case (Suc n)
  let ?st = "handleWheel d e st"
  have i: "currentRatioIndex ?st = (currentRatioIndex st + 7) mod 8"
    using Suc.prems by (simp add: wheel_backward_mod)
  have "currentRatioIndex (wheel_times n d e ?st) = (currentRatioIndex ?st + 7 * n) mod 8"
    using Suc.prems i by (intro Suc.IH) (simp_all add: handleWheel_lock)
  then show ?case
    by (simp add: i mod_simps algebra_simps)
qed

text \<open>
  C8. With the lock enabled and no shift key, a wheel event moves the index of the
  selected ratio one step forward (\<open>deltaY > 0\<close>) or backward (\<open>deltaY < 0\<close>) through
  the catalogue of eight names, wrapping at both ends: the step is addition of 1 or of 7
  modulo 8. Eight equal steps are the identity, and so is a step followed by a step in
  the other direction. With the lock disabled the event changes nothing.
\<close>

theorem wheel_cycles:
  assumes "\<not> shiftKey e" and "currentRatioIndex st < length ASPECT_RATIOS"
  shows "map fst ASPECT_RATIOS =
           [''16:9'', ''4:3'', ''3:2'', ''1:1'', ''2:3'', ''3:4'', ''9:16'', ''Custom'']
       \<and> (lockAspectRatio st \<and> deltaY e > 0 \<longrightarrow>
            currentRatioIndex (handleWheel d e st) = (currentRatioIndex st + 1) mod 8)
       \<and> (lockAspectRatio st \<and> deltaY e < 0 \<longrightarrow>
            currentRatioIndex (handleWheel d e st) = (currentRatioIndex st + 7) mod 8)
       \<and> (lockAspectRatio st \<longrightarrow>
            currentRatioIndex (wheel_times 8 d e st) = currentRatioIndex st)
       \<and> (\<forall>e'. lockAspectRatio st \<and> \<not> shiftKey e' \<and> (deltaY e > 0) \<noteq> (deltaY e' > 0) \<longrightarrow>
            currentRatioIndex (handleWheel d e' (handleWheel d e st)) = currentRatioIndex st)
       \<and> (\<not> lockAspectRatio st \<longrightarrow> handleWheel d e st = st)"
proof -
  have lt: "currentRatioIndex st < 8"
    using assms(2) by (simp add: length_ASPECT_RATIOS)
  have names: "map fst ASPECT_RATIOS =
           [''16:9'', ''4:3'', ''3:2'', ''1:1'', ''2:3'', ''3:4'', ''9:16'', ''Custom'']"
    by (simp add: ASPECT_RATIOS_def)
  have fwd: "lockAspectRatio st \<and> deltaY e > 0 \<longrightarrow>
            currentRatioIndex (handleWheel d e st) = (currentRatioIndex st + 1) mod 8"
    using assms(1) lt by (simp add: wheel_forward_mod)
  have bwd: "lockAspectRatio st \<and> deltaY e < 0 \<longrightarrow>
            currentRatioIndex (handleWheel d e st) = (currentRatioIndex st + 7) mod 8"
    using assms(1) lt by (simp add: wheel_backward_mod)
  have eight: "lockAspectRatio st \<longrightarrow>
            currentRatioIndex (wheel_times 8 d e st) = currentRatioIndex st"
  proof (cases "deltaY e > 0")
    case True
    then show ?thesis
      using assms(1) lt wheel_times_forward [of e st 8 d] by simp
  next
    case False
    have "(currentRatioIndex st + 56) mod 8 = currentRatioIndex st"
      using lt by presburger
    with False show ?thesis
      using assms(1) lt wheel_times_backward [of e st 8 d] by simp
  qed
  have inv: "\<forall>e'. lockAspectRatio st \<and> \<not> shiftKey e' \<and> (deltaY e > 0) \<noteq> (deltaY e' > 0) \<longrightarrow>
            currentRatioIndex (handleWheel d e' (handleWheel d e st)) = currentRatioIndex st"
  proof (intro allI impI, elim conjE)
    fix e' :: wheel_event
    assume l: "lockAspectRatio st" and s: "\<not> shiftKey e'"
      and ne: "(deltaY e > 0) \<noteq> (deltaY e' > 0)"
    have l': "lockAspectRatio (handleWheel d e st)"
      using l by (simp add: handleWheel_lock)
    show "currentRatioIndex (handleWheel d e' (handleWheel d e st)) = currentRatioIndex st"
      using ne lt
      by (auto simp: handleWheel_index_unshifted [OF s l'] handleWheel_index_unshifted [OF assms(1) l])
  qed
  have off: "\<not> lockAspectRatio st \<longrightarrow> handleWheel d e st = st"
    using assms(1) by (simp add: handleWheel_def)
  show ?thesis
    using names fwd bwd eight inv off by blast
qed

theorem wheel_cycles_witness:
  "\<not> shiftKey \<lparr> shiftKey = False, deltaY = -1 \<rparr>
   \<and> currentRatioIndex initial_editor < length ASPECT_RATIOS
   \<and> currentRatioIndex (handleWheel no_dom \<lparr> shiftKey = False, deltaY = -1 \<rparr> initial_editor) = 7
   \<and> currentRatioIndex (wheel_times 8 no_dom \<lparr> shiftKey = False, deltaY = -1 \<rparr> initial_editor) = 0"
  using wheel_cycles [of "\<lparr> shiftKey = False, deltaY = -1 \<rparr>" initial_editor no_dom]
  by (simp add: initial_editor_def length_ASPECT_RATIOS)

subsection \<open>Commit\<close>

text \<open>
  C9. Without a drawing context or without the image element, \<^verbatim>\<open>getCroppedImage\<close>
  returns null, and \<^verbatim>\<open>handleCrop\<close> returns at once: the state is the one it was given
  and neither \<^verbatim>\<open>onImageUpdate\<close> nor \<^verbatim>\<open>onClose\<close> is called.
\<close>

theorem commit_not_ready:
  assumes "\<not> has_ctx d \<or> imageRef d = None"
  shows "getCroppedImage d st = None \<and> handleCrop d st = (st, [])"
  using assms by (auto simp: getCroppedImage_def handleCrop_def)

theorem commit_not_ready_witness:
  "\<not> has_ctx no_dom \<and> imageRef no_dom = None
   \<and> getCroppedImage no_dom initial_editor = None
   \<and> handleCrop no_dom initial_editor = (initial_editor, [])"
  using commit_not_ready [of no_dom initial_editor] by (simp add: no_dom_def)



subsection \<open>Rounding of the source rectangle\<close>

lemmas ev_simps = dispatch_def handler_def deps_def currentRatio_def isCustomRatio_def
  length_ASPECT_RATIOS initializeCropBox_def pixel_mode_def if_ratio_def Let_def
  handleMouseDown_def handleMouseMove_def handleMouseUp_def resize_box_def
  resize_e_def resize_w_def resize_s_def resize_n_def bound_x_def bound_y_def handle_includes_def
  customRatioValue_def







subsection \<open>The lock\<close>

lemma unlocked_state:
  "run (square_dom 1000) unlock_events initial_editor =
     initial_editor\<lparr> cropBox := \<lparr> box_x = 100, box_y = 275, box_width = 800, box_height = 450 \<rparr>,
                     currentRatioIndex := 7, imageLoaded := True, lockAspectRatio := False,
                     customMode := PixelsMode \<rparr>"
  by (simp add: unlock_events_def square_dom_def initial_editor_def ev_simps ASPECT_RATIOS_def)


lemma currentRatio_unlocked: "\<not> lockAspectRatio st \<Longrightarrow> currentRatio st = None"
  by (simp add: currentRatio_def)



subsection \<open>Initialisation\<close>

lemma initializeCropBox_spec:
  assumes "imageRef d = Some img" and "\<not> pixel_mode st"
    and "\<forall>r. currentRatio st = Some r \<longrightarrow> 0 < r"
  shows "cropBox (initializeCropBox d st)
           = init_spec (rect_width img) (rect_height img) (currentRatio st)"
proof (cases "currentRatio st")
  case None
  then show ?thesis
    using assms(1,2) by (simp add: initializeCropBox_def init_spec_def if_ratio_def Let_def)
next
  case (Some r)
  then have "r \<noteq> 0" using assms(3) by auto
  then show ?thesis
    using assms(1,2) Some by (simp add: initializeCropBox_def init_spec_def if_ratio_def Let_def)
qed

lemma init_spec_bounds:
  assumes "0 < W" and "0 < H" and "\<forall>r. c = Some r \<longrightarrow> 0 < r"
  shows "box_width (init_spec W H c) \<le> 0.8 * W \<and> box_height (init_spec W H c) \<le> 0.8 * H"
proof (cases c)
  case None
  then show ?thesis by (simp add: init_spec_def Let_def)
next
  case (Some r)
  then have r: "0 < r" using assms(3) by simp
  show ?thesis
  proof (cases "W * 0.8 / r > H * 0.8")
    case True
    then have "H * 0.8 * r < W * 0.8"
      using r by (simp add: field_simps)
    then show ?thesis
      using True Some by (simp add: init_spec_def Let_def)
  next
    case False
    then show ?thesis
      using Some by (simp add: init_spec_def Let_def)
  qed
qed

lemma init_spec_centred:
  "box_x (init_spec W H c) = (W - box_width (init_spec W H c)) / 2
   \<and> box_y (init_spec W H c) = (H - box_height (init_spec W H c)) / 2"
  by (simp add: init_spec_def Let_def split: prod.splits)

text \<open>
  C5. Outside pixel mode, with a positive display size and a current ratio that is null
  or positive, \<^verbatim>\<open>initializeCropBox\<close> computes the box of \<open>init_spec\<close>: it is centred
  and at most 80% of the display in each dimension. At 1000 by 1000 and 16:9 the box is
  800 by 450 at (100, 275); at 1000 by 300 and 16:9 it is 1280/3 by 240 at (860/3, 30),
  which is 426.67 and 286.67 to two decimals.
\<close>

theorem initialize_width_first:
  assumes "imageRef d = Some img" and "0 < rect_width img" and "0 < rect_height img"
    and "\<not> pixel_mode st" and "\<forall>r. currentRatio st = Some r \<longrightarrow> 0 < r"
  shows "cropBox (initializeCropBox d st)
           = init_spec (rect_width img) (rect_height img) (currentRatio st)
       \<and> box_width (cropBox (initializeCropBox d st)) \<le> 0.8 * rect_width img
       \<and> box_height (cropBox (initializeCropBox d st)) \<le> 0.8 * rect_height img
       \<and> box_x (cropBox (initializeCropBox d st))
           = (rect_width img - box_width (cropBox (initializeCropBox d st))) / 2
       \<and> box_y (cropBox (initializeCropBox d st))
           = (rect_height img - box_height (cropBox (initializeCropBox d st))) / 2
       \<and> currentRatio initial_editor = Some (16 / 9)
       \<and> cropBox (initializeCropBox (square_dom 1000) initial_editor)
           = \<lparr> box_x = 100, box_y = 275, box_width = 800, box_height = 450 \<rparr>
       \<and> cropBox (initializeCropBox wide_dom initial_editor)
           = \<lparr> box_x = 860 / 3, box_y = 30, box_width = 1280 / 3, box_height = 240 \<rparr>
       \<and> \<bar>1280 / 3 - 426.67\<bar> < (0.005 :: real) \<and> \<bar>860 / 3 - 286.67\<bar> < (0.005 :: real)"
proof -
  note eq = initializeCropBox_spec [OF assms(1,4,5)]
  have ex0: "currentRatio initial_editor = Some (16 / 9)"
    by (simp add: currentRatio_def initial_editor_def isCustomRatio_def length_ASPECT_RATIOS
        ASPECT_RATIOS_def)
  have ex1: "cropBox (initializeCropBox (square_dom 1000) initial_editor)
           = \<lparr> box_x = 100, box_y = 275, box_width = 800, box_height = 450 \<rparr>"
    by (simp add: initializeCropBox_def square_dom_def ex0 if_ratio_def pixel_mode_def Let_def)
       (simp add: initial_editor_def isCustomRatio_def)
  have ex2: "cropBox (initializeCropBox wide_dom initial_editor)
           = \<lparr> box_x = 860 / 3, box_y = 30, box_width = 1280 / 3, box_height = 240 \<rparr>"
    by (simp add: initializeCropBox_def wide_dom_def ex0 if_ratio_def pixel_mode_def Let_def)
       (simp add: initial_editor_def isCustomRatio_def)
  have ap: "\<bar>1280 / 3 - 426.67\<bar> < (0.005 :: real) \<and> \<bar>860 / 3 - 286.67\<bar> < (0.005 :: real)"
    by simp
  show ?thesis
    unfolding eq
    using init_spec_bounds [OF assms(2,3,5)] init_spec_centred [of "rect_width img" "rect_height img" "currentRatio st"]
      ex0 ex1 ex2 ap
    by simp
qed

theorem initialize_width_first_witness:
  "imageRef wide_dom \<noteq> None \<and> \<not> pixel_mode initial_editor
   \<and> currentRatio initial_editor = Some (16 / 9)
   \<and> box_width (cropBox (initializeCropBox wide_dom initial_editor)) \<le> 0.8 * 1000
   \<and> box_height (cropBox (initializeCropBox wide_dom initial_editor)) \<le> 0.8 * 300"
proof -
  let ?img = "\<lparr> rect_width = 1000, rect_height = 300, naturalWidth = 2000, naturalHeight = 600 \<rparr>"
  have h1: "imageRef wide_dom = Some ?img"
    by (simp add: wide_dom_def)
  have h2: "0 < rect_width ?img" and h3: "0 < rect_height ?img"
    by simp_all
  have h4: "\<not> pixel_mode initial_editor"
    by (simp add: pixel_mode_def isCustomRatio_def initial_editor_def length_ASPECT_RATIOS)
  have cr: "currentRatio initial_editor = Some (16 / 9)"
    by (simp add: currentRatio_def initial_editor_def isCustomRatio_def length_ASPECT_RATIOS
        ASPECT_RATIOS_def)
  have h5: "\<forall>r. currentRatio initial_editor = Some r \<longrightarrow> 0 < r"
    by (simp add: cr)
  have "box_width (cropBox (initializeCropBox wide_dom initial_editor)) \<le> 0.8 * rect_width ?img
      \<and> box_height (cropBox (initializeCropBox wide_dom initial_editor)) \<le> 0.8 * rect_height ?img"
    using initialize_width_first [OF h1 h2 h3 h4 h5] by blast
  then show ?thesis
    using h1 h4 cr by simp
qed



lemma initializeCropBox_pixel:
  assumes "imageRef d = Some img" and "pixel_mode st"
  shows "cropBox (initializeCropBox d st) =
     (let (bw, bh) = pixel_candidate img st;
          k = (if bw > rect_width img \<or> bh > rect_height img
               then min (rect_width img / bw) (rect_height img / bh) * 0.8 else 1)
      in \<lparr> box_x = (rect_width img - bw * k) / 2, box_y = (rect_height img - bh * k) / 2,
           box_width = bw * k, box_height = bh * k \<rparr>)"
  using assms by (simp add: initializeCropBox_def pixel_candidate_def Let_def)

lemma downscale_fits:
  fixes bw bh W H :: real
  assumes "0 < bw" and "0 < bh" and "0 < W" and "0 < H"
  shows "bw * (min (W / bw) (H / bh) * 0.8) \<le> 0.8 * W"
    and "bh * (min (W / bw) (H / bh) * 0.8) \<le> 0.8 * H"
proof -
  have "bw * min (W / bw) (H / bh) \<le> bw * (W / bw)"
    using assms(1) by (intro mult_left_mono) simp_all
  then have "bw * min (W / bw) (H / bh) \<le> W"
    using assms(1) by simp
  then show "bw * (min (W / bw) (H / bh) * 0.8) \<le> 0.8 * W"
    by simp
  have "bh * min (W / bw) (H / bh) \<le> bh * (H / bh)"
    using assms(2) by (intro mult_left_mono) simp_all
  then have "bh * min (W / bw) (H / bh) \<le> H"
    using assms(2) by simp
  then show "bh * (min (W / bw) (H / bh) * 0.8) \<le> 0.8 * H"
    by simp
qed



subsection \<open>The custom inputs\<close>

lemma input_value_ge: "1 \<le> input_value p"
  by (simp add: input_value_def)

lemma wf_settings_initial: "wf_settings initial_editor"
  by (simp add: wf_settings_def initial_editor_def length_ASPECT_RATIOS)

lemma wf_settings_cropBox [simp]: "wf_settings (st\<lparr> cropBox := b \<rparr>) = wf_settings st"
  by (simp add: wf_settings_def)

lemma initializeCropBox_settings:
  "\<exists>b. initializeCropBox d st = st\<lparr> cropBox := b \<rparr>"
  by (cases "imageRef d") (auto simp: initializeCropBox_def Let_def split: prod.splits intro: exI [of _ "cropBox st"])

lemma wf_settings_initializeCropBox: "wf_settings (initializeCropBox d st) = wf_settings st"
  using initializeCropBox_settings [of d st] by auto

lemma handleMouseMove_settings: "\<exists>b. handleMouseMove d e st = st\<lparr> cropBox := b \<rparr>"
  by (auto simp: handleMouseMove_def Let_def split: option.splits intro: exI [of _ "cropBox st"])

lemma wf_settings_handleWheel: "wf_settings st \<Longrightarrow> wf_settings (handleWheel d e st)"
  by (auto simp: handleWheel_def wf_settings_def length_ASPECT_RATIOS Let_def
      split: option.splits prod.splits)

lemma wf_settings_handler: "wf_settings st \<Longrightarrow> wf_settings (handler d ev st)"
proof (cases ev)
  case (MouseMove e)
  assume "wf_settings st"
  then show ?thesis
    using handleMouseMove_settings [of d e st] MouseMove by (auto simp: handler_def)
next
  case (Wheel e)
  assume "wf_settings st"
  then show ?thesis
    using Wheel by (simp add: handler_def wf_settings_handleWheel)
qed (auto simp: handler_def wf_settings_def handleMouseDown_def handleMouseUp_def input_value_ge
      swapRatioDimensions_def swapPixelDimensions_def split: option.splits)

lemma wf_settings_dispatch: "wf_settings st \<Longrightarrow> wf_settings (dispatch d ev st)"
  by (simp add: dispatch_def Let_def wf_settings_initializeCropBox wf_settings_handler)

lemma wf_settings_run: "wf_settings st \<Longrightarrow> wf_settings (run d evs st)"
  by (induction evs arbitrary: st) (simp_all add: wf_settings_dispatch)

lemma catalogue_positive: "i < 7 \<Longrightarrow> 0 < snd (ASPECT_RATIOS ! i)"
proof -
  assume "i < 7"
  then consider "i = 0" | "i = 1" | "i = 2" | "i = 3" | "i = 4" | "i = 5" | "i = 6"
    by linarith
  then show ?thesis
    by cases (simp_all add: ASPECT_RATIOS_def)
qed

lemma currentRatio_positive:
  assumes "wf_settings st" and "currentRatio st = Some r"
  shows "0 < r"
proof (cases "currentRatioIndex st = 7")
  case True
  then show ?thesis
    using assms by (auto simp: currentRatio_def isCustomRatio_def length_ASPECT_RATIOS
        customRatioValue_def wf_settings_def split: if_splits)
next
  case False
  then have "currentRatioIndex st < 7"
    using assms(1) by (simp add: wf_settings_def length_ASPECT_RATIOS)
  then show ?thesis
    using assms(2) False catalogue_positive [of "currentRatioIndex st"]
    by (auto simp: currentRatio_def isCustomRatio_def length_ASPECT_RATIOS split: if_splits)
qed

text \<open>
  C10. The value an input stores is an integer of at least 1, and 1 when the text is no
  number. After every sequence of events from the initial state the four custom numbers
  are at least 1, so the custom ratio and the pixel ratio are positive, and the current
  ratio, when it is a number, is positive: no division by the current ratio divides by
  zero.
\<close>

theorem custom_inputs_positive:
  "1 \<le> input_value p \<and> input_value None = 1
   \<and> 1 \<le> customWidth (run d evs initial_editor) \<and> 1 \<le> customHeight (run d evs initial_editor)
   \<and> 1 \<le> pixelWidth (run d evs initial_editor) \<and> 1 \<le> pixelHeight (run d evs initial_editor)
   \<and> 0 < customRatioValue (run d evs initial_editor)
   \<and> 0 < real_of_int (pixelWidth (run d evs initial_editor))
           / real_of_int (pixelHeight (run d evs initial_editor))
   \<and> (\<forall>r. currentRatio (run d evs initial_editor) = Some r \<longrightarrow> 0 < r)"
proof -
  have wf: "wf_settings (run d evs initial_editor)"
    by (rule wf_settings_run [OF wf_settings_initial])
  then have "0 < customRatioValue (run d evs initial_editor)"
    and "0 < real_of_int (pixelWidth (run d evs initial_editor))
           / real_of_int (pixelHeight (run d evs initial_editor))"
    by (simp_all add: wf_settings_def customRatioValue_def)
  moreover have "\<forall>r. currentRatio (run d evs initial_editor) = Some r \<longrightarrow> 0 < r"
    using currentRatio_positive [OF wf] by blast
  ultimately show ?thesis
    using wf by (simp add: wf_settings_def input_value_ge) (simp add: input_value_def)
qed

lemma typing_state:
  "run (square_dom 1000) typing_events initial_editor =
     initial_editor\<lparr> cropBox := \<lparr> box_x = 999 / 2, box_y = 350, box_width = 1, box_height = 300 \<rparr>,
                     currentRatioIndex := 7, imageLoaded := True,
                     customWidth := 1, customHeight := 1, customMode := PixelsMode,
                     pixelWidth := 1, pixelHeight := 300 \<rparr>"
  by (simp add: typing_events_def square_dom_def initial_editor_def ev_simps ASPECT_RATIOS_def
      input_value_def swapRatioDimensions_def)

theorem custom_inputs_positive_witness:
  "currentRatio (run (square_dom 1000) typing_events initial_editor) = Some (1 / 300)
   \<and> (0 :: real) < 1 / 300
   \<and> customWidth (run (square_dom 1000) typing_events initial_editor) = 1
   \<and> pixelWidth (run (square_dom 1000) typing_events initial_editor) = 1"
proof -
  have cr: "currentRatio (run (square_dom 1000) typing_events initial_editor) = Some (1 / 300)"
    unfolding typing_state
    by (simp add: currentRatio_def isCustomRatio_def length_ASPECT_RATIOS initial_editor_def)
  have "\<forall>r. currentRatio (run (square_dom 1000) typing_events initial_editor) = Some r \<longrightarrow> 0 < r"
    using custom_inputs_positive [of None "square_dom 1000" typing_events] by blast
  then have "(0 :: real) < 1 / 300"
    using cr by blast
  then show ?thesis
    using cr unfolding typing_state by (simp add: initial_editor_def)
qed

subsection \<open>Ratio-locked resizing\<close>

lemma if_ratio_Some: "r \<noteq> 0 \<Longrightarrow> if_ratio (Some r) a b = a r"
  by (simp add: if_ratio_def)

lemma if_ratio_None: "if_ratio None a b = b"
  by (simp add: if_ratio_def)

lemma locked_resize_e:
  assumes "0 < r" and "box_x t < imgW" and "box_y t < imgH"
  shows "locked_to r imgW imgH (resize_e (Some r) cb mouseX imgW t)"
  using assms by (simp add: resize_e_def if_ratio_Some locked_to_def Let_def)

lemma locked_resize_s:
  assumes "0 < r" and "box_x t < imgW" and "box_y t < imgH"
  shows "locked_to r imgW imgH (resize_s (Some r) cb mouseY imgH t)"
  using assms by (simp add: resize_s_def if_ratio_Some locked_to_def Let_def)

lemma locked_resize_w:
  assumes "0 < r" and "0 < imgW"
    and "0 \<le> box_x cb" and "box_x cb + box_width cb \<le> imgW"
    and "box_y cb + box_height cb \<le> imgH"
    and "0 < box_width cb" and "0 < box_height cb"
  shows "locked_to r imgW imgH (resize_w (Some r) cb mouseX t)"
proof -
  define newX where "newX = max 0 (min mouseX (box_x cb + box_width cb - 50))"
  define newWidth where "newWidth = box_x cb + box_width cb - newX"
  have w: "0 < newWidth"
    using assms(3,6) by (simp add: newWidth_def newX_def max_def min_def)
  have x: "newX < imgW"
    using assms(2,4) by (simp add: newX_def max_def min_def)
  have h: "0 < newWidth / r"
    using w assms(1) by simp
  have y: "box_y cb + (box_height cb - newWidth / r) / 2 < imgH"
    using h assms(5,7) by argo
  have "resize_w (Some r) cb mouseX t =
          t\<lparr> box_x := newX, box_width := newWidth, box_height := newWidth / r,
             box_y := box_y cb + (box_height cb - newWidth / r) / 2 \<rparr>"
    using assms(1) by (simp add: resize_w_def if_ratio_Some Let_def newX_def newWidth_def)
  then show ?thesis
    using w x h y assms(1) by (simp add: locked_to_def)
qed

lemma locked_resize_n:
  assumes "0 < r" and "0 < imgH"
    and "0 \<le> box_y cb" and "box_y cb + box_height cb \<le> imgH"
    and "box_x cb + box_width cb \<le> imgW"
    and "0 < box_width cb" and "0 < box_height cb"
  shows "locked_to r imgW imgH (resize_n (Some r) cb mouseY t)"
proof -
  define newY where "newY = max 0 (min mouseY (box_y cb + box_height cb - 50))"
  define newHeight where "newHeight = box_y cb + box_height cb - newY"
  have h: "0 < newHeight"
    using assms(3,7) by (simp add: newHeight_def newY_def max_def min_def)
  have y: "newY < imgH"
    using assms(2,4) by (simp add: newY_def max_def min_def)
  have w: "0 < newHeight * r"
    using h assms(1) by simp
  have x: "box_x cb + (box_width cb - newHeight * r) / 2 < imgW"
    using w assms(5,6) by argo
  have "resize_n (Some r) cb mouseY t =
          t\<lparr> box_y := newY, box_height := newHeight, box_width := newHeight * r,
             box_x := box_x cb + (box_width cb - newHeight * r) / 2 \<rparr>"
    using assms(1) by (simp add: resize_n_def if_ratio_Some Let_def newY_def newHeight_def)
  then show ?thesis
    using w x h y by (simp add: locked_to_def)
qed

lemma locked_bound_x:
  assumes "0 < r" and "locked_to r imgW imgH t"
  shows "locked_to r imgW imgH (bound_x (Some r) imgW t)"
  using assms by (simp add: bound_x_def if_ratio_Some locked_to_def Let_def)

lemma locked_bound_y:
  assumes "0 < r" and "locked_to r imgW imgH t"
  shows "locked_to r imgW imgH (bound_y (Some r) imgH t)"
  using assms by (simp add: bound_y_def if_ratio_Some locked_to_def Let_def)

lemma locked_resize_box:
  assumes "0 < r" and "0 < rect_width img" and "0 < rect_height img"
    and "inside img cb" and "positive_size cb"
  shows "locked_to r (rect_width img) (rect_height img)
           (resize_box (Some r) h mouseX mouseY (rect_width img) (rect_height img) cb)"
proof -
  let ?W = "rect_width img" and ?H = "rect_height img"
  have pos: "box_x cb < ?W" "box_y cb < ?H"
    using assms(4,5) by (simp_all add: inside_def positive_size_def)
  note e = locked_resize_e [OF assms(1)]
  note s = locked_resize_s [OF assms(1)]
  have w: "locked_to r ?W ?H (resize_w (Some r) cb mouseX t)" for t
    using assms by (intro locked_resize_w) (simp_all add: inside_def positive_size_def)
  have n: "locked_to r ?W ?H (resize_n (Some r) cb mouseY t)" for t
    using assms by (intro locked_resize_n) (simp_all add: inside_def positive_size_def)
  have "locked_to r ?W ?H
          (let t = cb;
               t = (if handle_includes h CHR ''e'' then resize_e (Some r) cb mouseX ?W t else t);
               t = (if handle_includes h CHR ''w'' then resize_w (Some r) cb mouseX t else t);
               t = (if handle_includes h CHR ''s'' then resize_s (Some r) cb mouseY ?H t else t);
               t = (if handle_includes h CHR ''n'' then resize_n (Some r) cb mouseY t else t)
           in t)"
  proof (cases h)
    case Hnw
    then show ?thesis by (simp add: handle_includes_def n)
  next
    case Hne
    then show ?thesis by (simp add: handle_includes_def n)
  next
    case Hsw
    have "locked_to r ?W ?H (resize_w (Some r) cb mouseX cb)" by (rule w)
    then have "locked_to r ?W ?H (resize_s (Some r) cb mouseY ?H (resize_w (Some r) cb mouseX cb))"
      by (intro s) (simp_all add: locked_to_def)
    then show ?thesis using Hsw by (simp add: handle_includes_def)
  next
    case Hse
    have "locked_to r ?W ?H (resize_e (Some r) cb mouseX ?W cb)" by (rule e [OF pos])
    then have "locked_to r ?W ?H (resize_s (Some r) cb mouseY ?H (resize_e (Some r) cb mouseX ?W cb))"
      by (intro s) (simp_all add: locked_to_def)
    then show ?thesis using Hse by (simp add: handle_includes_def)
  next
    case Hn
    then show ?thesis by (simp add: handle_includes_def n)
  next
    case Hs
    then show ?thesis by (simp add: handle_includes_def s [OF pos])
  next
    case Hw
    then show ?thesis by (simp add: handle_includes_def w)
  next
    case He
    then show ?thesis by (simp add: handle_includes_def e [OF pos])
  qed
  then show ?thesis
    unfolding resize_box_def Let_def
    by (intro locked_bound_y locked_bound_x assms(1))
qed

text \<open>
  C2. With a current ratio \<open>r > 0\<close>, a pointer move that resizes by any of the eight
  handles a crop box lying inside the image with positive size gives a box of positive
  height whose width is exactly the height times \<open>r\<close>, the boundary pass included; in
  particular width / height differs from \<open>r\<close> by less than 0.01. (Numbers are exact
  reals here, so no rounding remains.)
\<close>

theorem resize_keeps_ratio:
  assumes "containerRef d = Some c" and "imageRef d = Some img"
    and "0 < rect_width img" and "0 < rect_height img"
    and "\<not> isDragging st" and "resizeHandle st = Some h"
    and "currentRatio st = Some r" and "0 < r"
    and "inside img (cropBox st)" and "positive_size (cropBox st)"
    and "cropBox (handleMouseMove d e st) = b"
  shows "0 < box_height b \<and> box_width b = box_height b * r
       \<and> \<bar>box_width b / box_height b - r\<bar> < 0.01"
proof -
  have b: "b = resize_box (Some r) h (clientX e - rect_left c) (clientY e - rect_top c)
                  (rect_width img) (rect_height img) (cropBox st)"
    using assms(1,2,5,6,7,11) by (simp add: handleMouseMove_def)
  have "locked_to r (rect_width img) (rect_height img) b"
    unfolding b by (rule locked_resize_box [OF assms(8,3,4,9,10)])
  then have h: "0 < box_height b" and w: "box_width b = box_height b * r"
    by (simp_all add: locked_to_def)
  then have "box_width b / box_height b = r"
    by simp
  then show ?thesis
    using h w by simp
qed

lemma east_grab_state:
  "run (square_dom 2000) east_grab_events initial_editor =
     initial_editor\<lparr> cropBox := \<lparr> box_x = 100, box_y = 275, box_width = 800, box_height = 450 \<rparr>,
                     imageLoaded := True, resizeHandle := Some He \<rparr>"
  by (simp add: east_grab_events_def square_dom_def initial_editor_def ev_simps ASPECT_RATIOS_def)

theorem resize_keeps_ratio_witness:
  "currentRatio (run (square_dom 2000) east_grab_events initial_editor) = Some (16 / 9)
   \<and> inside \<lparr> rect_width = 1000, rect_height = 1000, naturalWidth = 2000, naturalHeight = 2000 \<rparr>
        (cropBox (run (square_dom 2000) east_grab_events initial_editor))
   \<and> cropBox (handleMouseMove (square_dom 2000) \<lparr> clientX = 0, clientY = 500, target_handle = None \<rparr>
        (run (square_dom 2000) east_grab_events initial_editor))
       = \<lparr> box_x = 100, box_y = 275, box_width = 50, box_height = 225 / 8 \<rparr>
   \<and> \<bar>50 / (225 / 8) - 16 / 9\<bar> < (0.01 :: real)"
proof -
  let ?img = "\<lparr> rect_width = 1000, rect_height = 1000, naturalWidth = 2000, naturalHeight = 2000 \<rparr>"
  let ?st = "run (square_dom 2000) east_grab_events initial_editor"
  let ?e = "\<lparr> clientX = 0, clientY = 500, target_handle = None \<rparr>"
  have h1: "containerRef (square_dom 2000) = Some \<lparr> rect_left = 0, rect_top = 0 \<rparr>"
    and h2: "imageRef (square_dom 2000) = Some ?img"
    by (simp_all add: square_dom_def)
  have h3: "0 < rect_width ?img" and h4: "0 < rect_height ?img"
    by simp_all
  have h5: "\<not> isDragging ?st" and h6: "resizeHandle ?st = Some He"
    unfolding east_grab_state by (simp_all add: initial_editor_def)
  have h7: "currentRatio ?st = Some (16 / 9)"
    unfolding east_grab_state
    by (simp add: currentRatio_def initial_editor_def isCustomRatio_def length_ASPECT_RATIOS
        ASPECT_RATIOS_def)
  have h8: "(0 :: real) < 16 / 9"
    by simp
  have h9: "inside ?img (cropBox ?st)" and h10: "positive_size (cropBox ?st)"
    unfolding east_grab_state by (simp_all add: inside_def positive_size_def initial_editor_def)
  have b: "cropBox (handleMouseMove (square_dom 2000) ?e ?st)
             = \<lparr> box_x = 100, box_y = 275, box_width = 50, box_height = 225 / 8 \<rparr>"
    unfolding east_grab_state
    by (simp add: square_dom_def initial_editor_def ev_simps ASPECT_RATIOS_def)
  have "\<bar>50 / (225 / 8) - 16 / 9\<bar> < (0.01 :: real)"
    using resize_keeps_ratio [OF h1 h2 h3 h4 h5 h6 h7 h8 h9 h10 b] by simp
  then show ?thesis
    using h7 h9 b by blast
qed

subsection \<open>The bounds of the crop box\<close>

lemma translate_inside:
  assumes "inside img cb" and "positive_size cb"
  shows "inside img (cb\<lparr> box_x := max 0 (min nx (rect_width img - box_width cb)),
                         box_y := max 0 (min ny (rect_height img - box_height cb)) \<rparr>)"
  using assms by (auto simp: inside_def positive_size_def max_def min_def)

lemma free_resize_inside:
  assumes "0 < rect_width img" and "0 < rect_height img"
    and "inside img cb" and "positive_size cb"
  shows "inside img (resize_box None h mx my (rect_width img) (rect_height img) cb)
       \<and> positive_size (resize_box None h mx my (rect_width img) (rect_height img) cb)"
  using assms
  by (cases h)
     (auto simp: resize_box_def resize_e_def resize_w_def resize_s_def resize_n_def
        bound_x_def bound_y_def if_ratio_None handle_includes_def Let_def
        inside_def positive_size_def max_def min_def)

lemma free_resize_min_size:
  assumes "inside img cb" and "min_size cb"
  shows "min_size (resize_box None h mx my (rect_width img) (rect_height img) cb)"
  using assms
  by (cases h)
     (auto simp: resize_box_def resize_e_def resize_w_def resize_s_def resize_n_def
        bound_x_def bound_y_def if_ratio_None handle_includes_def Let_def
        inside_def min_size_def max_def min_def)

lemma centre_clamp:
  fixes W w x :: real
  assumes "w \<le> W"
  shows "0 \<le> max 0 (min x (W - w))" and "max 0 (min x (W - w)) + w \<le> W"
  using assms by (auto simp: max_def min_def)

lemma wheel_box_free:
  assumes "0 < rect_width img" and "0 < rect_height img" and "positive_size (cropBox st)"
    and "imageRef d = Some img" and "shiftKey e" and "currentRatio st = None"
  shows "inside img (cropBox (handleWheel d e st)) \<and> positive_size (cropBox (handleWheel d e st))"
proof -
  let ?W = "rect_width img" and ?H = "rect_height img"
  define sf :: real where "sf = (if deltaY e > 0 then 0.95 else 1.05)"
  define nw where "nw = min (box_width (cropBox st) * sf) ?W"
  define nh where "nh = min (box_height (cropBox st) * sf) ?H"
  have sf: "0 < sf" by (simp add: sf_def)
  have pos: "0 < nw" "0 < nh"
    using assms(1-3) sf by (simp_all add: nw_def nh_def positive_size_def)
  have le: "nw \<le> ?W" "nh \<le> ?H"
    by (simp_all add: nw_def nh_def)
  have "cropBox (handleWheel d e st) =
          \<lparr> box_x = max 0 (min (box_x (cropBox st) + (box_width (cropBox st) - nw) / 2) (?W - nw)),
            box_y = max 0 (min (box_y (cropBox st) + (box_height (cropBox st) - nh) / 2) (?H - nh)),
            box_width = nw, box_height = nh \<rparr>"
    using assms(4-6)
    by (simp add: handleWheel_def if_ratio_None Let_def nw_def nh_def sf_def min_def)
  then show ?thesis
    using pos centre_clamp [OF le(1)] centre_clamp [OF le(2)]
    by (simp add: inside_def positive_size_def)
qed

lemma wheel_box_locked:
  assumes "0 < rect_width img" and "0 < rect_height img" and "positive_size (cropBox st)"
    and "imageRef d = Some img" and "shiftKey e" and "currentRatio st = Some r" and "0 < r"
  shows "inside img (cropBox (handleWheel d e st)) \<and> positive_size (cropBox (handleWheel d e st))"
proof -
  let ?W = "rect_width img" and ?H = "rect_height img"
  define sf :: real where "sf = (if deltaY e > 0 then 0.95 else 1.05)"
  define w1 where "w1 = min (box_width (cropBox st) * sf) ?W"
  define nw where "nw = (if w1 / r > ?H then ?H * r else w1)"
  define nh where "nh = (if w1 / r > ?H then ?H else w1 / r)"
  have sf: "0 < sf" by (simp add: sf_def)
  have w1: "0 < w1" "w1 \<le> ?W"
    using assms(1,3) sf by (simp_all add: w1_def positive_size_def)
  have pos: "0 < nw" "0 < nh"
    using assms(2,7) w1 by (simp_all add: nw_def nh_def)
  have "?H * r < w1" if "w1 / r > ?H"
    using that assms(7) by (simp add: field_simps)
  then have le: "nw \<le> ?W" "nh \<le> ?H"
    using w1 by (auto simp: nw_def nh_def)
  have r: "r \<noteq> 0" using assms(7) by simp
  have "cropBox (handleWheel d e st) =
          \<lparr> box_x = max 0 (min (box_x (cropBox st) + (box_width (cropBox st) - nw) / 2) (?W - nw)),
            box_y = max 0 (min (box_y (cropBox st) + (box_height (cropBox st) - nh) / 2) (?H - nh)),
            box_width = nw, box_height = nh \<rparr>"
    using assms(4-6) r
    by (simp add: handleWheel_def if_ratio_Some Let_def nw_def nh_def w1_def sf_def min_def)
  then show ?thesis
    using pos centre_clamp [OF le(1)] centre_clamp [OF le(2)]
    by (simp add: inside_def positive_size_def)
qed

lemma init_spec_positive:
  assumes "0 < W" and "0 < H" and "\<forall>r. c = Some r \<longrightarrow> 0 < r"
  shows "positive_size (init_spec W H c)"
  using assms by (cases c) (auto simp: init_spec_def positive_size_def Let_def)

lemma centred_inside:
  assumes "0 < box_width b" and "0 < box_height b"
    and "box_width b \<le> rect_width img" and "box_height b \<le> rect_height img"
    and "box_x b = (rect_width img - box_width b) / 2"
    and "box_y b = (rect_height img - box_height b) / 2"
  shows "inside img b \<and> positive_size b"
  using assms by (simp add: inside_def positive_size_def)

lemma initializeCropBox_inside:
  assumes "imageRef d = Some img" and "0 < rect_width img" and "0 < rect_height img"
    and "0 < naturalWidth img" and "0 < naturalHeight img" and "wf_settings st"
  shows "inside img (cropBox (initializeCropBox d st))
       \<and> positive_size (cropBox (initializeCropBox d st))"
proof (cases "pixel_mode st")
  case False
  have cr: "\<forall>r. currentRatio st = Some r \<longrightarrow> 0 < r"
    using currentRatio_positive [OF assms(6)] by blast
  let ?b = "init_spec (rect_width img) (rect_height img) (currentRatio st)"
  have "inside img ?b \<and> positive_size ?b"
  proof (rule centred_inside)
    show "0 < box_width ?b" "0 < box_height ?b"
      using init_spec_positive [OF assms(2,3) cr] by (simp_all add: positive_size_def)
    show "box_width ?b \<le> rect_width img" "box_height ?b \<le> rect_height img"
      using init_spec_bounds [OF assms(2,3) cr] assms(2,3) by simp_all
    show "box_x ?b = (rect_width img - box_width ?b) / 2"
      "box_y ?b = (rect_height img - box_height ?b) / 2"
      using init_spec_centred [of "rect_width img" "rect_height img" "currentRatio st"] by simp_all
  qed
  then show ?thesis
    by (simp add: initializeCropBox_spec [OF assms(1) False cr])
next
  case True
  obtain bw bh where c: "pixel_candidate img st = (bw, bh)"
    by (cases "pixel_candidate img st")
  define k where "k = (if bw > rect_width img \<or> bh > rect_height img
               then min (rect_width img / bw) (rect_height img / bh) * 0.8 else 1)"
  have bw: "0 < bw" and bh: "0 < bh"
    using c assms(2-6) by (auto simp: pixel_candidate_def wf_settings_def)
  have k: "0 < k"
    using bw bh assms(2,3) by (simp add: k_def)
  have le: "bw * k \<le> rect_width img \<and> bh * k \<le> rect_height img"
    using downscale_fits [OF bw bh assms(2,3)] assms(2,3) by (auto simp: k_def)
  have b: "cropBox (initializeCropBox d st) =
      \<lparr> box_x = (rect_width img - bw * k) / 2, box_y = (rect_height img - bh * k) / 2,
        box_width = bw * k, box_height = bh * k \<rparr>"
    using initializeCropBox_pixel [OF assms(1) True] c by (simp add: k_def Let_def)
  show ?thesis
    unfolding b using bw bh k le by (intro centred_inside) simp_all
qed


lemma deps_cropBox [simp]: "deps (st\<lparr> cropBox := b \<rparr>) = deps st"
  by (simp add: deps_def currentRatio_def isCustomRatio_def customRatioValue_def)

lemma handleWheel_shift_settings:
  "shiftKey e \<Longrightarrow> \<exists>b. handleWheel d e st = st\<lparr> cropBox := b \<rparr>"
  by (cases "imageRef d")
     (auto simp: handleWheel_def Let_def split: prod.splits intro: exI [of _ "cropBox st"])

lemma handleMouseDown_cropBox:
  "cropBox (handleMouseDown d e st) = cropBox st
   \<and> lockAspectRatio (handleMouseDown d e st) = lockAspectRatio st
   \<and> deps (handleMouseDown d e st) = deps st
   \<and> wf_settings (handleMouseDown d e st) = wf_settings st
   \<and> (target_handle e = None \<longrightarrow> resizeHandle (handleMouseDown d e st) = resizeHandle st)"
  by (auto simp: handleMouseDown_def deps_def currentRatio_def isCustomRatio_def
      customRatioValue_def wf_settings_def split: option.splits)

lemma handleMouseUp_cropBox:
  "cropBox (handleMouseUp st) = cropBox st
   \<and> lockAspectRatio (handleMouseUp st) = lockAspectRatio st
   \<and> deps (handleMouseUp st) = deps st
   \<and> wf_settings (handleMouseUp st) = wf_settings st
   \<and> resizeHandle (handleMouseUp st) = None"
  by (simp add: handleMouseUp_def deps_def currentRatio_def isCustomRatio_def
      customRatioValue_def wf_settings_def)

lemma mouse_move_free:
  assumes "imageRef d = Some img" and "0 < rect_width img" and "0 < rect_height img"
    and "\<not> lockAspectRatio st" and "inside img (cropBox st)" and "positive_size (cropBox st)"
  shows "inside img (cropBox (handleMouseMove d e st))
       \<and> positive_size (cropBox (handleMouseMove d e st))"
proof -
  have cr: "currentRatio st = None"
    using assms(4) by (rule currentRatio_unlocked)
  show ?thesis
    using assms(1,5,6) translate_inside [OF assms(5,6)] free_resize_inside [OF assms(2,3,5,6)]
    by (auto simp: handleMouseMove_def cr Let_def positive_size_def split: option.splits)
qed

lemma mouse_move_free_min:
  assumes "imageRef d = Some img"
    and "\<not> lockAspectRatio st" and "inside img (cropBox st)" and "min_size (cropBox st)"
  shows "min_size (cropBox (handleMouseMove d e st))"
proof -
  have cr: "currentRatio st = None"
    using assms(2) by (rule currentRatio_unlocked)
  show ?thesis
    using assms(1,4) free_resize_min_size [OF assms(3,4)]
    by (auto simp: handleMouseMove_def cr Let_def min_size_def split: option.splits)
qed

lemma mouse_move_drag:
  assumes "imageRef d = Some img"
    and "resizeHandle st = None" and "inside img (cropBox st)" and "positive_size (cropBox st)"
  shows "inside img (cropBox (handleMouseMove d e st))
       \<and> positive_size (cropBox (handleMouseMove d e st))"
  using assms translate_inside [OF assms(3,4)]
  by (auto simp: handleMouseMove_def Let_def positive_size_def split: option.splits)

lemma handleMouseMove_frame:
  "lockAspectRatio (handleMouseMove d e st) = lockAspectRatio st
   \<and> deps (handleMouseMove d e st) = deps st
   \<and> wf_settings (handleMouseMove d e st) = wf_settings st
   \<and> resizeHandle (handleMouseMove d e st) = resizeHandle st"
  using handleMouseMove_settings [of d e st] by auto

lemma handleWheel_shift_frame:
  "shiftKey e \<Longrightarrow>
   lockAspectRatio (handleWheel d e st) = lockAspectRatio st
   \<and> deps (handleWheel d e st) = deps st
   \<and> wf_settings (handleWheel d e st) = wf_settings st
   \<and> resizeHandle (handleWheel d e st) = resizeHandle st"
  using handleWheel_shift_settings [of e d st] by auto

text \<open>Unlocked: pointer and wheel events keep the box inside the image.\<close>

lemma dispatch_free:
  assumes "imageRef d = Some img" and "0 < rect_width img" and "0 < rect_height img"
    and "pointer_or_wheel ev"
    and "\<not> lockAspectRatio st" and "inside img (cropBox st)" and "positive_size (cropBox st)"
  shows "\<not> lockAspectRatio (dispatch d ev st) \<and> inside img (cropBox (dispatch d ev st))
       \<and> positive_size (cropBox (dispatch d ev st))"
proof (cases ev)
  case (MouseDown e)
  then show ?thesis
    using assms(5-7) handleMouseDown_cropBox [of d e st]
    by (simp add: dispatch_def handler_def Let_def)
next
  case (MouseMove e)
  then show ?thesis
    using assms(5) mouse_move_free [OF assms(1-3,5-7), of e] handleMouseMove_frame [of d e st]
    by (simp add: dispatch_def handler_def Let_def)
next
  case MouseUp
  then show ?thesis
    using assms(5-7) handleMouseUp_cropBox [of st]
    by (simp add: dispatch_def handler_def Let_def)
next
  case (Wheel e)
  show ?thesis
  proof (cases "shiftKey e")
    case True
    then show ?thesis
      using Wheel assms(5) handleWheel_shift_frame [OF True, of d st]
        wheel_box_free [OF assms(2,3,7,1) True currentRatio_unlocked [OF assms(5)]]
      by (simp add: dispatch_def handler_def Let_def)
  next
    case False
    then have "handleWheel d e st = st"
      using assms(5) by (simp add: handleWheel_def)
    then show ?thesis
      using Wheel assms(5-7) by (simp add: dispatch_def handler_def Let_def)
  qed
qed (use assms(4) in simp_all)

lemma run_free:
  assumes "imageRef d = Some img" and "0 < rect_width img" and "0 < rect_height img"
    and "\<forall>ev\<in>set evs. pointer_or_wheel ev"
    and "\<not> lockAspectRatio st" and "inside img (cropBox st)" and "positive_size (cropBox st)"
  shows "inside img (cropBox (run d evs st)) \<and> positive_size (cropBox (run d evs st))"
  using assms(4-7)
proof (induction evs arbitrary: st)
  case Nil
  then show ?case by simp
next
  case (Cons ev evs)
  have "pointer_or_wheel ev" using Cons.prems(1) by simp
  from dispatch_free [OF assms(1-3) this Cons.prems(2-4)] Cons.prems(1)
  show ?case by (simp add: Cons.IH)
qed

text \<open>Unlocked, without the wheel's resizing: the minimum size is kept as well.\<close>

lemma dispatch_free_min:
  assumes "imageRef d = Some img"
    and "pointer_or_wheel ev" and "\<not> precise_wheel ev"
    and "\<not> lockAspectRatio st" and "inside img (cropBox st)" and "min_size (cropBox st)"
  shows "min_size (cropBox (dispatch d ev st))"
proof (cases ev)
  case (MouseDown e)
  then show ?thesis
    using assms(6) handleMouseDown_cropBox [of d e st]
    by (simp add: dispatch_def handler_def Let_def)
next
  case (MouseMove e)
  then show ?thesis
    using mouse_move_free_min [OF assms(1,4-6), of e] handleMouseMove_frame [of d e st]
    by (simp add: dispatch_def handler_def Let_def)
next
  case MouseUp
  then show ?thesis
    using assms(6) handleMouseUp_cropBox [of st]
    by (simp add: dispatch_def handler_def Let_def)
next
  case (Wheel e)
  then have "handleWheel d e st = st"
    using assms(3,4) by (simp add: handleWheel_def)
  then show ?thesis
    using Wheel assms(6) by (simp add: dispatch_def handler_def Let_def)
qed (use assms(2) in simp_all)

lemma min_size_positive: "min_size b \<Longrightarrow> positive_size b"
  by (simp add: min_size_def positive_size_def)

lemma run_free_min:
  assumes "imageRef d = Some img" and "0 < rect_width img" and "0 < rect_height img"
    and "\<forall>ev\<in>set evs. pointer_or_wheel ev \<and> \<not> precise_wheel ev"
    and "\<not> lockAspectRatio st" and "inside img (cropBox st)" and "min_size (cropBox st)"
  shows "min_size (cropBox (run d evs st))"
  using assms(4-7)
proof (induction evs arbitrary: st)
  case Nil
  then show ?case by simp
next
  case (Cons ev evs)
  have ev: "pointer_or_wheel ev" "\<not> precise_wheel ev"
    using Cons.prems(1) by simp_all
  note pos = min_size_positive [OF Cons.prems(4)]
  from dispatch_free [OF assms(1-3) ev(1) Cons.prems(2,3) pos]
    dispatch_free_min [OF assms(1) ev Cons.prems(2-4)] Cons.prems(1)
  show ?case by (simp add: Cons.IH)
qed

text \<open>Locked, with no handle grabbed: dragging, the wheel and re-initialisation.\<close>

lemma handleWheel_unshifted_frame:
  "\<not> shiftKey e \<Longrightarrow>
   cropBox (handleWheel d e st) = cropBox st
   \<and> resizeHandle (handleWheel d e st) = resizeHandle st"
  by (simp add: handleWheel_def)

lemma initializeCropBox_frame:
  "lockAspectRatio (initializeCropBox d st) = lockAspectRatio st
   \<and> resizeHandle (initializeCropBox d st) = resizeHandle st"
  using initializeCropBox_settings [of d st] by auto

lemma dispatch_drag:
  assumes "imageRef d = Some img" and "0 < rect_width img" and "0 < rect_height img"
    and "0 < naturalWidth img" and "0 < naturalHeight img"
    and "pointer_or_wheel ev" and "\<not> grabs_handle ev"
    and "lockAspectRatio st" and "wf_settings st" and "resizeHandle st = None"
    and "inside img (cropBox st)" and "positive_size (cropBox st)"
  shows "lockAspectRatio (dispatch d ev st) \<and> wf_settings (dispatch d ev st)
       \<and> resizeHandle (dispatch d ev st) = None
       \<and> inside img (cropBox (dispatch d ev st))
       \<and> positive_size (cropBox (dispatch d ev st))"
proof (cases ev)
  case (MouseDown e)
  then have "target_handle e = None"
    using assms(7) by simp
  then show ?thesis
    using MouseDown assms(8-12) handleMouseDown_cropBox [of d e st]
    by (simp add: dispatch_def handler_def Let_def)
next
  case (MouseMove e)
  then show ?thesis
    using assms(8-10) mouse_move_drag [OF assms(1,10-12), of e] handleMouseMove_frame [of d e st]
    by (simp add: dispatch_def handler_def Let_def)
next
  case MouseUp
  then show ?thesis
    using assms(8-12) handleMouseUp_cropBox [of st]
    by (simp add: dispatch_def handler_def Let_def)
next
  case (Wheel e)
  show ?thesis
  proof (cases "shiftKey e")
    case True
    obtain r where r: "currentRatio st = Some r"
      using assms(8) by (simp add: currentRatio_def)
    have "0 < r"
      by (rule currentRatio_positive [OF assms(9) r])
    from wheel_box_locked [OF assms(2,3,12,1) True r this]
    show ?thesis
      using Wheel assms(8-10) handleWheel_shift_frame [OF True, of d st]
      by (simp add: dispatch_def handler_def Let_def)
  next
    case False
    let ?st = "handleWheel d e st"
    have wf: "wf_settings ?st"
      by (rule wf_settings_handleWheel [OF assms(9)])
    have fr: "lockAspectRatio ?st" "resizeHandle ?st = None" "cropBox ?st = cropBox st"
      using assms(8,10) handleWheel_lock [of d e st] handleWheel_unshifted_frame [OF False, of d st]
      by simp_all
    show ?thesis
    proof (cases "deps ?st \<noteq> deps st \<and> imageLoaded ?st")
      case True
      then have "dispatch d ev st = initializeCropBox d ?st"
        using Wheel by (simp add: dispatch_def handler_def Let_def)
      then show ?thesis
        using initializeCropBox_inside [OF assms(1-5) wf] initializeCropBox_frame [of d ?st]
          wf fr by (simp add: wf_settings_initializeCropBox)
    next
      case False
      then have "dispatch d ev st = ?st"
        using Wheel by (auto simp: dispatch_def handler_def Let_def)
      then show ?thesis
        using wf fr assms(11,12) by simp
    qed
  qed
qed (use assms(6) in simp_all)

lemma run_drag:
  assumes "imageRef d = Some img" and "0 < rect_width img" and "0 < rect_height img"
    and "0 < naturalWidth img" and "0 < naturalHeight img"
    and "\<forall>ev\<in>set evs. pointer_or_wheel ev \<and> \<not> grabs_handle ev"
    and "lockAspectRatio st" and "wf_settings st" and "resizeHandle st = None"
    and "inside img (cropBox st)" and "positive_size (cropBox st)"
  shows "inside img (cropBox (run d evs st)) \<and> positive_size (cropBox (run d evs st))"
  using assms(6-11)
proof (induction evs arbitrary: st)
  case Nil
  then show ?case by simp
next
  case (Cons ev evs)
  have ev: "pointer_or_wheel ev" "\<not> grabs_handle ev"
    using Cons.prems(1) by simp_all
  from dispatch_drag [OF assms(1-5) ev Cons.prems(2-6)] Cons.prems(1)
  show ?case by (simp add: Cons.IH)
qed

lemma square_state:
  "run small_dom square_events initial_editor =
     initial_editor\<lparr> cropBox := \<lparr> box_x = 32 / 5, box_y = 32 / 5, box_width = 256 / 5, box_height = 256 / 5 \<rparr>,
                     currentRatioIndex := 3, imageLoaded := True \<rparr>"
  by (simp add: square_events_def small_dom_def initial_editor_def ev_simps ASPECT_RATIOS_def)

text \<open>
  C1, as stated, fails: the wheel has no minimum size. On an image shown at 64 by 64 with
  the ratio 1:1 the initialised box satisfies all six inequalities, and one wheel event
  with the shift key makes it 48.64 wide.
\<close>

theorem min_size_counterexample:
  "inside \<lparr> rect_width = 64, rect_height = 64, naturalWidth = 64, naturalHeight = 64 \<rparr>
     (cropBox (run small_dom square_events initial_editor))
   \<and> min_size (cropBox (run small_dom square_events initial_editor))
   \<and> box_width (cropBox (run small_dom [Wheel \<lparr> shiftKey = True, deltaY = 1 \<rparr>]
         (run small_dom square_events initial_editor))) = 1216 / 25
   \<and> (1216 / 25 :: real) < 50"
  unfolding square_state
  by (simp add: inside_def min_size_def small_dom_def initial_editor_def ev_simps handleWheel_def
      ASPECT_RATIOS_def)

text \<open>
  C1, amended. On an image of positive displayed and natural size, with settings the
  handlers keep, and starting from any box that lies inside the image with positive size:
  the initialised box lies inside the image with positive size; after every sequence of
  pointer and wheel events the box lies inside the image with positive size, provided the
  lock is disabled or no resize handle is grabbed (translations, wheel events and the
  re-initialisation they cause, under any constraint); and with the lock disabled and no
  resizing by the wheel, a box of at least 50 by 50 stays at least 50 by 50. Nothing is
  said here of resizing by a handle under the lock.
\<close>

theorem crop_box_bounds:
  assumes "imageRef d = Some img" and "0 < rect_width img" and "0 < rect_height img"
    and "0 < naturalWidth img" and "0 < naturalHeight img"
    and "wf_settings st"
    and "\<forall>ev\<in>set evs. pointer_or_wheel ev"
    and "inside img (cropBox st)" and "positive_size (cropBox st)"
  shows "inside img (cropBox (initializeCropBox d st))
       \<and> positive_size (cropBox (initializeCropBox d st))
       \<and> (\<not> lockAspectRatio st \<or> (resizeHandle st = None \<and> (\<forall>ev\<in>set evs. \<not> grabs_handle ev)) \<longrightarrow>
            inside img (cropBox (run d evs st)) \<and> positive_size (cropBox (run d evs st)))
       \<and> (\<not> lockAspectRatio st \<and> (\<forall>ev\<in>set evs. \<not> precise_wheel ev) \<and> min_size (cropBox st) \<longrightarrow>
            min_size (cropBox (run d evs st)))"
proof -
  note init = initializeCropBox_inside [OF assms(1-6)]
  have free: "inside img (cropBox (run d evs st)) \<and> positive_size (cropBox (run d evs st))"
    if "\<not> lockAspectRatio st"
    by (rule run_free [OF assms(1-3,7) that assms(8,9)])
  have drag: "inside img (cropBox (run d evs st)) \<and> positive_size (cropBox (run d evs st))"
    if "lockAspectRatio st" and "resizeHandle st = None" and "\<forall>ev\<in>set evs. \<not> grabs_handle ev"
  proof -
    have "\<forall>ev\<in>set evs. pointer_or_wheel ev \<and> \<not> grabs_handle ev"
      using assms(7) that(3) by blast
    then show ?thesis
      by (rule run_drag [OF assms(1-5) _ that(1) assms(6) that(2) assms(8,9)])
  qed
  have small: "min_size (cropBox (run d evs st))"
    if "\<not> lockAspectRatio st" and "\<forall>ev\<in>set evs. \<not> precise_wheel ev" and "min_size (cropBox st)"
  proof -
    have "\<forall>ev\<in>set evs. pointer_or_wheel ev \<and> \<not> precise_wheel ev"
      using assms(7) that(2) by blast
    then show ?thesis
      by (rule run_free_min [OF assms(1-3) _ that(1) assms(8) that(3)])
  qed
  show ?thesis
    using init free drag small by blast
qed

theorem crop_box_bounds_witness:
  "\<not> lockAspectRatio (run (square_dom 1000) unlock_events initial_editor)
   \<and> min_size (cropBox (run (square_dom 1000) unlock_events initial_editor))
   \<and> inside \<lparr> rect_width = 1000, rect_height = 1000, naturalWidth = 1000, naturalHeight = 1000 \<rparr>
        (cropBox (run (square_dom 1000) shrink_events
           (run (square_dom 1000) unlock_events initial_editor)))
   \<and> min_size (cropBox (run (square_dom 1000) shrink_events
           (run (square_dom 1000) unlock_events initial_editor)))"
proof -
  let ?img = "\<lparr> rect_width = 1000, rect_height = 1000, naturalWidth = 1000, naturalHeight = 1000 \<rparr>"
  let ?st = "run (square_dom 1000) unlock_events initial_editor"
  have h1: "imageRef (square_dom 1000) = Some ?img"
    by (simp add: square_dom_def)
  have h2: "0 < rect_width ?img" and h3: "0 < rect_height ?img"
    and h4: "0 < naturalWidth ?img" and h5: "0 < naturalHeight ?img"
    by simp_all
  have h6: "wf_settings ?st"
    by (rule wf_settings_run [OF wf_settings_initial])
  have h7: "\<forall>ev\<in>set shrink_events. pointer_or_wheel ev"
    and nw: "\<forall>ev\<in>set shrink_events. \<not> precise_wheel ev"
    by (simp_all add: shrink_events_def)
  have h8: "inside ?img (cropBox ?st)" and h9: "positive_size (cropBox ?st)"
    and ms: "min_size (cropBox ?st)" and ul: "\<not> lockAspectRatio ?st"
    unfolding unlocked_state
    by (simp_all add: inside_def positive_size_def min_size_def initial_editor_def)
  have "inside ?img (cropBox (run (square_dom 1000) shrink_events ?st))
      \<and> min_size (cropBox (run (square_dom 1000) shrink_events ?st))"
    using crop_box_bounds [OF h1 h2 h3 h4 h5 h6 h7 h8 h9] nw ms ul by blast
  then show ?thesis
    using ms ul by blast
qed

end
